theory Spec2Isabelle
  imports Main "HOL-Library.AList"
begin

section \<open>An in-memory ShareDB store: values, documents and operation logs\<close>

text \<open>
  The development embeds \<^verbatim>\<open>index.js\<close> (the \<^verbatim>\<open>MemoryDB\<close> adapter).
  Conventions of the embedding:
  \<^item> A JavaScript object used as a dictionary (\<^verbatim>\<open>this.docs\<close>, \<^verbatim>\<open>this.ops\<close>, the operator
    tables, a query expression) is a finite map over its own properties: a partial function
    where the code only looks keys up, an association list in iteration order where the
    code enumerates keys with \<^verbatim>\<open>for ... in\<close>. Keys are ordinary property names; names that
    every object inherits from \<^verbatim>\<open>Object.prototype\<close> (such as \<^verbatim>\<open>constructor\<close>) and the
    numeric-key-first enumeration order are not modelled.
  \<^item> Numbers are integers. The version fields \<^verbatim>\<open>v\<close> are \<open>int option\<close>, \<open>None\<close> standing for a
    missing (\<^verbatim>\<open>undefined\<close>) field; an array may grow without the bound of \<open>2^32 - 1\<close> entries.
  \<^item> Every public method runs its body on the next tick and reports through a callback. The
    body is synchronous, so a method is a function from the store to the new store and the
    arguments that the callback receives.
  \<^item> Values are passed by value. The log keeps the operation object that the caller passed
    in, not a copy; what the caller does to that object afterwards is not modelled. Only
    \<^verbatim>\<open>query\<close>, whose result is a cyclic object graph, is modelled with explicit references.
\<close>

subsection \<open>JavaScript values and \<^verbatim>\<open>clone\<close>\<close>

datatype jsval =
    JUndefined
  | JNull
  | JBool bool
  | JNum int
  | JStr string
  | JArr "jsval list"
  | JObj "(string \<times> jsval) list"

text \<open>\<^verbatim>\<open>JSON.parse(JSON.stringify(x))\<close> for a value other than \<^verbatim>\<open>undefined\<close>: inside an array
  \<^verbatim>\<open>undefined\<close> is written as \<^verbatim>\<open>null\<close>, inside an object a property holding \<^verbatim>\<open>undefined\<close>
  is left out.\<close>

fun json_roundtrip :: "jsval \<Rightarrow> jsval"
  and roundtrip_elems :: "jsval list \<Rightarrow> jsval list"
  and roundtrip_props :: "(string \<times> jsval) list \<Rightarrow> (string \<times> jsval) list"
where
  "json_roundtrip (JArr xs) = JArr (roundtrip_elems xs)"
| "json_roundtrip (JObj ps) = JObj (roundtrip_props ps)"
| "json_roundtrip JUndefined = JUndefined"
| "json_roundtrip JNull = JNull"
| "json_roundtrip (JBool b) = JBool b"
| "json_roundtrip (JNum n) = JNum n"
| "json_roundtrip (JStr s) = JStr s"
| "roundtrip_elems [] = []"
| "roundtrip_elems (x # xs) =
     (if x = JUndefined then JNull else json_roundtrip x) # roundtrip_elems xs"
| "roundtrip_props [] = []"
| "roundtrip_props (p # ps) =
     (if snd p = JUndefined then roundtrip_props ps
      else (fst p, json_roundtrip (snd p)) # roundtrip_props ps)"

text \<open>\<^verbatim>\<open>function clone(obj)\<close>.\<close>

definition clone :: "jsval \<Rightarrow> jsval" where
  "clone obj = (if obj = JUndefined then JUndefined else json_roundtrip obj)"

text \<open>Truthiness, as \<^verbatim>\<open>if (x)\<close>, \<^verbatim>\<open>!x\<close> and \<^verbatim>\<open>x || y\<close> test it.\<close>

fun truthy :: "jsval \<Rightarrow> bool" where
  "truthy JUndefined = False"
| "truthy JNull = False"
| "truthy (JBool b) = b"
| "truthy (JNum n) = (n \<noteq> 0)"
| "truthy (JStr s) = (s \<noteq> [])"
| "truthy (JArr xs) = True"
| "truthy (JObj ps) = True"

text \<open>Property read \<^verbatim>\<open>obj[key]\<close> on the own properties of an object.\<close>

definition get_prop :: "(string \<times> jsval) list \<Rightarrow> string \<Rightarrow> jsval" where
  "get_prop obj key = (case map_of obj key of None \<Rightarrow> JUndefined | Some x \<Rightarrow> x)"

subsection \<open>Operations, snapshots and the store\<close>

text \<open>An operation is an object with an optional numeric field \<^verbatim>\<open>v\<close>; its other properties
  are opaque to the store.\<close>

record op =
  op_v :: "int option"
  op_rest :: "(string \<times> jsval) list"

text \<open>A snapshot \<^verbatim>\<open>{id, v, type, data}\<close>, as passed to \<^verbatim>\<open>commit\<close>, as stored in
  \<^verbatim>\<open>this.docs\<close> and as built by \<^verbatim>\<open>MemorySnapshot\<close>. \<open>snap_type = None\<close> is a type that is
  \<^verbatim>\<open>null\<close> or missing.\<close>

record snapshot =
  snap_id :: string
  snap_v :: "int option"
  snap_type :: "string option"
  snap_data :: jsval

text \<open>An operation log is a JavaScript array: its elements (\<open>None\<close> is a hole) and the
  properties it carries under keys that are not array indices.\<close>

record oplog =
  elems :: "op option list"
  props :: "(int option \<times> op) list"

record memorydb =
  docs :: "string \<rightharpoonup> (string \<times> snapshot) list"
  ops :: "string \<rightharpoonup> (string \<rightharpoonup> oplog)"
  closed :: bool

text \<open>\<^verbatim>\<open>function MemoryDB(options)\<close>: the store as the constructor leaves it.\<close>

definition MemoryDB :: memorydb where
  "MemoryDB = \<lparr>docs = Map.empty, ops = Map.empty, closed = False\<rparr>"

datatype error = ConsistencyError

definition message :: "error \<Rightarrow> string" where
  "message e = ''Internal consistancy error - database missing parent version''"


definition clone_snapshot :: "snapshot \<Rightarrow> snapshot" where
  "clone_snapshot s = s\<lparr>snap_data := clone (snap_data s)\<rparr>"

definition type_truthy :: "string option \<Rightarrow> bool" where
  "type_truthy t = (case t of None \<Rightarrow> False | Some s \<Rightarrow> s \<noteq> [])"

definition empty_log :: oplog where
  "empty_log = \<lparr>elems = [], props = []\<rparr>"

text \<open>The log that \<^verbatim>\<open>this.ops[collection][id]\<close> denotes; a missing entry is an empty log.\<close>

definition opLog_of :: "memorydb \<Rightarrow> string \<Rightarrow> string \<Rightarrow> oplog" where
  "opLog_of db collection docId =
     (case ops db collection of
        None \<Rightarrow> empty_log
      | Some collectionOps \<Rightarrow>
          (case collectionOps docId of None \<Rightarrow> empty_log | Some opLog \<Rightarrow> opLog))"

text \<open>\<^verbatim>\<open>MemoryDB.prototype._getOpLogSync\<close>: creates the collection's map and the document's
  log when they are missing, and returns the log.\<close>

definition getOpLogSync :: "memorydb \<Rightarrow> string \<Rightarrow> string \<Rightarrow> memorydb \<times> oplog" where
  "getOpLogSync db collection docId =
     (let collectionOps = (case ops db collection of None \<Rightarrow> Map.empty | Some m \<Rightarrow> m);
          opLog = (case collectionOps docId of None \<Rightarrow> empty_log | Some l \<Rightarrow> l)
      in (db\<lparr>ops := (ops db)(collection \<mapsto> collectionOps(docId \<mapsto> opLog))\<rparr>, opLog))"

text \<open>\<^verbatim>\<open>MemoryDB.prototype._getVersionSync\<close>.\<close>

definition getVersionSync :: "memorydb \<Rightarrow> string \<Rightarrow> string \<Rightarrow> nat" where
  "getVersionSync db collection docId =
     (case ops db collection of
        None \<Rightarrow> 0
      | Some collectionOps \<Rightarrow>
          (case collectionOps docId of None \<Rightarrow> 0 | Some opLog \<Rightarrow> length (elems opLog)))"

text \<open>The assignment \<^verbatim>\<open>opLog[key] = x\<close>: an index inside the array overwrites the element, an
  index at or past the end extends the array (leaving holes in between), any other key
  sets a property and leaves elements and length alone.\<close>

definition array_put :: "oplog \<Rightarrow> int option \<Rightarrow> op \<Rightarrow> oplog" where
  "array_put opLog key x =
     (case key of
        None \<Rightarrow> opLog\<lparr>props := AList.update key x (props opLog)\<rparr>
      | Some k \<Rightarrow>
          if k < 0 then opLog\<lparr>props := AList.update key x (props opLog)\<rparr>
          else if nat k < length (elems opLog)
          then opLog\<lparr>elems := (elems opLog)[nat k := Some x]\<rparr>
          else opLog\<lparr>elems :=
                 elems opLog @ replicate (nat k - length (elems opLog)) None @ [Some x]\<rparr>)"

text \<open>The guard \<^verbatim>\<open>opLog.length < op.v - 1\<close>; with \<^verbatim>\<open>op.v\<close> missing the right-hand side is
  \<^verbatim>\<open>NaN\<close> and the comparison is false.\<close>

definition missing_parent :: "oplog \<Rightarrow> op \<Rightarrow> bool" where
  "missing_parent opLog x =
     (case op_v x of None \<Rightarrow> False | Some k \<Rightarrow> int (length (elems opLog)) < k - 1)"

text \<open>\<^verbatim>\<open>MemoryDB.prototype._writeOpSync\<close>: returns the error, if any.\<close>

definition writeOpSync :: "memorydb \<Rightarrow> string \<Rightarrow> string \<Rightarrow> op \<Rightarrow> memorydb \<times> error option" where
  "writeOpSync db collection docId x =
     (let (db1, opLog) = getOpLogSync db collection docId in
      if missing_parent opLog x then (db1, Some ConsistencyError)
      else (db1\<lparr>ops := (ops db1)(collection \<mapsto>
                    (case ops db1 collection of None \<Rightarrow> Map.empty | Some m \<Rightarrow> m)
                      (docId \<mapsto> array_put opLog (op_v x) x))\<rparr>,
            None))"

text \<open>\<^verbatim>\<open>MemoryDB.prototype._writeSnapshotSync\<close>: a snapshot without a type deletes the stored
  one, any other is stored as a clone. It never returns an error.\<close>

definition writeSnapshotSync ::
  "memorydb \<Rightarrow> string \<Rightarrow> string \<Rightarrow> snapshot \<Rightarrow> memorydb \<times> error option" where
  "writeSnapshotSync db collection docId s =
     (let collectionDocs = (case docs db collection of None \<Rightarrow> [] | Some m \<Rightarrow> m) in
      if \<not> type_truthy (snap_type s)
      then (db\<lparr>docs := (docs db)(collection \<mapsto> AList.delete docId collectionDocs)\<rparr>, None)
      else (db\<lparr>docs := (docs db)(collection \<mapsto>
                   AList.update docId (clone_snapshot s) collectionDocs)\<rparr>, None))"

text \<open>The stored snapshot \<^verbatim>\<open>collectionDocs && collectionDocs[id]\<close>, if there is one.\<close>

definition stored_doc :: "memorydb \<Rightarrow> string \<Rightarrow> string \<Rightarrow> snapshot option" where
  "stored_doc db collection docId =
     (case docs db collection of
        None \<Rightarrow> None
      | Some collectionDocs \<Rightarrow> map_of collectionDocs docId)"

text \<open>\<^verbatim>\<open>MemoryDB.prototype._getSnapshotSync\<close> with \<^verbatim>\<open>MemorySnapshot\<close>.\<close>

definition getSnapshotSync :: "memorydb \<Rightarrow> string \<Rightarrow> string \<Rightarrow> snapshot" where
  "getSnapshotSync db collection docId =
     (case stored_doc db collection docId of
        Some doc \<Rightarrow>
          \<lparr>snap_id = docId, snap_v = snap_v doc, snap_type = snap_type doc,
           snap_data = clone (snap_data doc)\<rparr>
      | None \<Rightarrow>
          \<lparr>snap_id = docId, snap_v = Some (int (getVersionSync db collection docId)),
           snap_type = None, snap_data = JNull\<rparr>)"

subsection \<open>The public methods\<close>

text \<open>\<^verbatim>\<open>MemoryDB.prototype.commit\<close>. The result is the new store and what the callback gets:
  \<open>Inl err\<close> for \<^verbatim>\<open>callback(err)\<close>, \<open>Inr succeeded\<close> for \<^verbatim>\<open>callback(null, succeeded)\<close>.\<close>

definition commit ::
  "memorydb \<Rightarrow> string \<Rightarrow> string \<Rightarrow> op \<Rightarrow> snapshot \<Rightarrow> memorydb \<times> (error + bool)" where
  "commit db collection docId x s =
     (let version = getVersionSync db collection docId in
      if snap_v s \<noteq> Some (int version + 1) then (db, Inr False)
      else
        (case writeOpSync db collection docId x of
           (db1, Some err) \<Rightarrow> (db1, Inl err)
         | (db1, None) \<Rightarrow>
             (case writeSnapshotSync db1 collection docId s of
                (db2, Some err) \<Rightarrow> (db2, Inl err)
              | (db2, None) \<Rightarrow> (db2, Inr True))))"

text \<open>\<^verbatim>\<open>MemoryDB.prototype.getSnapshot\<close>: \<^verbatim>\<open>callback(null, snapshot)\<close>; \<^verbatim>\<open>fields\<close> is not used.\<close>

definition getSnapshot ::
  "memorydb \<Rightarrow> string \<Rightarrow> string \<Rightarrow> jsval \<Rightarrow> error option \<times> snapshot" where
  "getSnapshot db collection docId flds = (None, getSnapshotSync db collection docId)"



subsection \<open>Sequences of commits\<close>

text \<open>A call \<^verbatim>\<open>commit(collection, id, op, snapshot, callback)\<close>, and the store after a
  sequence of such calls, each one finished before the next.\<close>

type_synonym commit_call = "string \<times> string \<times> op \<times> snapshot"

definition commit_call :: "memorydb \<Rightarrow> commit_call \<Rightarrow> memorydb" where
  "commit_call db call = (case call of (collection, docId, x, s) \<Rightarrow> fst (commit db collection docId x s))"

definition commits :: "memorydb \<Rightarrow> commit_call list \<Rightarrow> memorydb" where
  "commits db calls = foldl commit_call db calls"

text \<open>The caller's discipline: the operation carries the version it applies to, which is one
  less than the version of the snapshot it produces.\<close>

definition op_version_matches :: "commit_call \<Rightarrow> bool" where
  "op_version_matches call =
     (case call of (collection, docId, x, s) \<Rightarrow>
        (case snap_v s of None \<Rightarrow> True | Some n \<Rightarrow> op_v x = Some (n - 1)))"

subsection \<open>Example data\<close>

definition ex_op :: "int option \<Rightarrow> op" where
  "ex_op k = \<lparr>op_v = k, op_rest = [(''op'', JArr [])]\<rparr>"

definition ex_snapshot :: "int \<Rightarrow> string option \<Rightarrow> snapshot" where
  "ex_snapshot n t = \<lparr>snap_id = ''d'', snap_v = Some n, snap_type = t, snap_data = JObj [(''a'', JNum n)]\<rparr>"



subsection \<open>The range that \<^verbatim>\<open>getOps\<close> is specified to return\<close>


subsection \<open>Query normalisation\<close>

text \<open>The tables \<^verbatim>\<open>metaOperators\<close> and \<^verbatim>\<open>cursorOperators\<close>.\<close>

definition metaOperators :: "(string \<times> bool) list" where
  "metaOperators =
     [(''$comment'', True), (''$explain'', True), (''$hint'', True), (''$maxScan'', True),
      (''$max'', True), (''$min'', True), (''$orderby'', True), (''$returnKey'', True),
      (''$showDiskLoc'', True), (''$snapshot'', True), (''$count'', True),
      (''$aggregate'', True)]"

definition cursorOperators :: "(string \<times> string) list" where
  "cursorOperators = [(''$limit'', ''limit''), (''$skip'', ''skip'')]"

text \<open>The assignment \<^verbatim>\<open>obj[key] = x\<close> on a value that is an object: an existing property
  keeps its place, a new one goes last.\<close>

definition obj_put :: "jsval \<Rightarrow> string \<Rightarrow> jsval \<Rightarrow> jsval" where
  "obj_put obj key x = (case obj of JObj ps \<Rightarrow> JObj (AList.update key x ps) | _ \<Rightarrow> obj)"

text \<open>One round of the loop \<^verbatim>\<open>for (var key in expression)\<close> of \<^verbatim>\<open>normalizeQuery\<close>, on the
  object \<^verbatim>\<open>query\<close> built so far.\<close>

definition normalize_step ::
  "string \<times> jsval \<Rightarrow> (string \<times> jsval) list \<Rightarrow> (string \<times> jsval) list" where
  "normalize_step kv query =
     (let key = fst kv; val = snd kv in
      if map_of metaOperators key = Some True then AList.update key val query
      else
        (case map_of cursorOperators key of
           Some target \<Rightarrow>
             (let findOptions =
                    (if truthy (get_prop query ''$findOptions'')
                     then get_prop query ''$findOptions'' else JObj [])
              in AList.update ''$findOptions'' (obj_put findOptions target val) query)
         | None \<Rightarrow>
             AList.update ''$query'' (obj_put (get_prop query ''$query'') key val) query))"

text \<open>\<^verbatim>\<open>function normalizeQuery(expression)\<close>, on an expression given as the list of its
  properties in enumeration order.\<close>

definition normalizeQuery :: "(string \<times> jsval) list \<Rightarrow> (string \<times> jsval) list" where
  "normalizeQuery expression =
     (if truthy (get_prop expression ''$query'')
      then (let query = roundtrip_props expression
            in AList.update ''$query'' (clone (get_prop query ''$query'')) query)
      else fold normalize_step expression [(''$query'', JObj [])])"


text \<open>The two kinds of operator keys, as the tables decide them.\<close>

definition is_meta :: "string \<Rightarrow> bool" where
  "is_meta key = (map_of metaOperators key = Some True)"

definition is_cursor :: "string \<Rightarrow> bool" where
  "is_cursor key = (map_of cursorOperators key \<noteq> None)"

text \<open>The properties of a flat expression that are neither meta operators nor cursor
  operators, and its cursor operators under their target names.\<close>

definition selector_fields :: "(string \<times> jsval) list \<Rightarrow> (string \<times> jsval) list" where
  "selector_fields expression =
     filter (\<lambda>kv. \<not> is_meta (fst kv) \<and> \<not> is_cursor (fst kv)) expression"

definition cursor_target :: "string \<Rightarrow> string" where
  "cursor_target key = (case map_of cursorOperators key of Some target \<Rightarrow> target | None \<Rightarrow> [])"

definition cursor_fields :: "(string \<times> jsval) list \<Rightarrow> (string \<times> jsval) list" where
  "cursor_fields expression =
     map (\<lambda>kv. (cursor_target (fst kv), snd kv)) (filter (\<lambda>kv. is_cursor (fst kv)) expression)"


subsection \<open>Queries\<close>

text \<open>A query hands out objects by reference, and ties each candidate document to its
  snapshot by a property \<^verbatim>\<open>__snapshot\<close> on the document itself. The objects that one call
  creates live in a heap, a list of cells addressed by position. A cell is a
  \<^verbatim>\<open>MemorySnapshot\<close> with its fields, or a cloned document body (an object or an array)
  together with the snapshot that its property \<^verbatim>\<open>__snapshot\<close> refers to, if it has been
  set. A value held in a variable or an array is a primitive (\<^verbatim>\<open>null\<close> and \<^verbatim>\<open>undefined\<close>
  included) or a reference to a cell.\<close>

datatype jsref = Prim jsval | Ref nat

datatype cell =
    SnapshotObj string "int option" "string option" jsref
  | DataObj jsval "nat option"

type_synonym heap = "cell list"

definition deref :: "heap \<Rightarrow> nat \<Rightarrow> cell option" where
  "deref h a = (if a < length h then Some (h ! a) else None)"

datatype exn = TypeError

text \<open>The third argument of the callback of \<^verbatim>\<open>query\<close>: missing, a count, or the result of
  an aggregation.\<close>

datatype extra = NoExtra | Count nat | Aggregated jsval

text \<open>The external evaluator (Mingo) is a parameter: the test that \<^verbatim>\<open>new Mingo.Query(selector)\<close>
  applies to a candidate, and \<^verbatim>\<open>new Mingo.Aggregator(pipeline).run(datas)\<close>.
  \<^verbatim>\<open>find(datas).all()\<close> returns the candidates that pass the test, by reference and in the
  order of \<^verbatim>\<open>datas\<close>.\<close>

record mingo =
  query_test :: "jsval \<Rightarrow> heap \<Rightarrow> jsref \<Rightarrow> bool"
  aggregator_run :: "jsval \<Rightarrow> jsval list \<Rightarrow> jsval"

text \<open>The keys that \<^verbatim>\<open>for (var id in collectionDocs)\<close> enumerates.\<close>

definition candidate_ids :: "memorydb \<Rightarrow> string \<Rightarrow> string list" where
  "candidate_ids db collection =
     (case docs db collection of None \<Rightarrow> [] | Some collectionDocs \<Rightarrow> map fst collectionDocs)"

definition is_object :: "jsval \<Rightarrow> bool" where
  "is_object x = (case x of JObj ps \<Rightarrow> True | JArr xs \<Rightarrow> True | _ \<Rightarrow> False)"

text \<open>The own properties of a document body once \<^verbatim>\<open>__snapshot\<close> has been assigned a
  reference: that property is kept apart, in the cell.\<close>

definition without_snapshot_prop :: "jsval \<Rightarrow> jsval" where
  "without_snapshot_prop body =
     (case body of JObj ps \<Rightarrow> JObj (AList.delete ''__snapshot'' ps) | _ \<Rightarrow> body)"

text \<open>One round of the loop of find mode:
  \<^verbatim>\<open>snapshot = db._getSnapshotSync(collection, id); data = snapshot.data;\<close>
  \<^verbatim>\<open>data.__snapshot = snapshot; datas.push(data)\<close>. Assigning a property of \<^verbatim>\<open>null\<close> or
  \<^verbatim>\<open>undefined\<close> throws; on another primitive the assignment does nothing.\<close>

definition tag_candidate ::
  "memorydb \<Rightarrow> string \<Rightarrow> string \<Rightarrow> heap \<times> jsref list \<Rightarrow> exn + heap \<times> jsref list" where
  "tag_candidate db collection docId st =
     (let heap = fst st; datas = snd st;
          snapshot = getSnapshotSync db collection docId;
          data = snap_data snapshot
      in if data = JNull \<or> data = JUndefined then Inl TypeError
         else if is_object data
         then Inr (heap @ [DataObj (without_snapshot_prop data) (Some (Suc (length heap))),
                           SnapshotObj docId (snap_v snapshot) (snap_type snapshot)
                             (Ref (length heap))],
                   datas @ [Ref (length heap)])
         else Inr (heap @ [SnapshotObj docId (snap_v snapshot) (snap_type snapshot) (Prim data)],
                   datas @ [Prim data]))"

fun tag_candidates ::
  "memorydb \<Rightarrow> string \<Rightarrow> string list \<Rightarrow> heap \<times> jsref list \<Rightarrow> exn + heap \<times> jsref list" where
  "tag_candidates db collection [] st = Inr st"
| "tag_candidates db collection (docId # ids) st =
     (case tag_candidate db collection docId st of
        Inl e \<Rightarrow> Inl e
      | Inr st' \<Rightarrow> tag_candidates db collection ids st')"

text \<open>The read \<^verbatim>\<open>result.__snapshot\<close>.\<close>

definition get_snapshot_prop :: "heap \<Rightarrow> jsref \<Rightarrow> exn + jsref" where
  "get_snapshot_prop heap r =
     (case r of
        Prim p \<Rightarrow> if p = JNull \<or> p = JUndefined then Inl TypeError else Inr (Prim JUndefined)
      | Ref a \<Rightarrow>
          (case deref heap a of
             Some (DataObj body (Some s)) \<Rightarrow> Inr (Ref s)
           | Some (DataObj body None) \<Rightarrow>
               Inr (Prim (case body of JObj ps \<Rightarrow> get_prop ps ''__snapshot'' | _ \<Rightarrow> JUndefined))
           | _ \<Rightarrow> Inr (Prim JUndefined)))"

text \<open>The loop that collects \<^verbatim>\<open>result.__snapshot\<close> for every result.\<close>

fun resolve :: "heap \<Rightarrow> jsref list \<Rightarrow> exn + jsref list" where
  "resolve heap [] = Inr []"
| "resolve heap (result # results) =
     (case get_snapshot_prop heap result of
        Inl e \<Rightarrow> Inl e
      | Inr snapshot \<Rightarrow>
          (case resolve heap results of
             Inl e \<Rightarrow> Inl e
           | Inr snapshots \<Rightarrow> Inr (snapshot # snapshots)))"

text \<open>\<^verbatim>\<open>MemoryDB.prototype.query\<close>. The store is only read. The result is \<open>Inl\<close> when the
  body throws, else the heap of the objects created and the second and third argument of
  the callback (the first is \<^verbatim>\<open>null\<close>); \<^verbatim>\<open>fields\<close> and \<^verbatim>\<open>options\<close> are not used.\<close>

definition query ::
  "mingo \<Rightarrow> memorydb \<Rightarrow> string \<Rightarrow> (string \<times> jsval) list \<Rightarrow> jsval \<Rightarrow> jsval
     \<Rightarrow> exn + heap \<times> jsref list \<times> extra" where
  "query M db collection expression flds options =
     (let q = normalizeQuery expression in
      if truthy (get_prop q ''$aggregate'')
      then Inr ([], [],
             Aggregated (aggregator_run M (get_prop q ''$aggregate'')
               (map (\<lambda>docId. snap_data (getSnapshotSync db collection docId))
                  (candidate_ids db collection))))
      else
        (case tag_candidates db collection (candidate_ids db collection) ([], []) of
           Inl e \<Rightarrow> Inl e
         | Inr (heap, datas) \<Rightarrow>
             (let results = filter (query_test M (get_prop q ''$query'') heap) datas in
              if truthy (get_prop q ''$count'') then Inr (heap, [], Count (length results))
              else
                (case resolve heap results of
                   Inl e \<Rightarrow> Inl e
                 | Inr snapshots \<Rightarrow> Inr (heap, snapshots, NoExtra)))))"

text \<open>What a returned entry says about itself: the identifier of the snapshot it refers to,
  and whether the snapshot's data refers back to the snapshot through \<^verbatim>\<open>__snapshot\<close>, that
  is \<^verbatim>\<open>s.data.__snapshot == s\<close>.\<close>

definition snapshot_id :: "heap \<Rightarrow> jsref \<Rightarrow> string option" where
  "snapshot_id heap r =
     (case r of
        Prim p \<Rightarrow> None
      | Ref s \<Rightarrow> (case deref heap s of Some (SnapshotObj i v t d) \<Rightarrow> Some i | _ \<Rightarrow> None))"

definition snapshot_data :: "heap \<Rightarrow> nat \<Rightarrow> jsref option" where
  "snapshot_data heap s =
     (case deref heap s of Some (SnapshotObj i v t d) \<Rightarrow> Some d | _ \<Rightarrow> None)"

definition data_backref :: "heap \<Rightarrow> nat \<Rightarrow> nat option" where
  "data_backref heap d = (case deref heap d of Some (DataObj body b) \<Rightarrow> b | _ \<Rightarrow> None)"

definition back_referenced :: "heap \<Rightarrow> jsref \<Rightarrow> bool" where
  "back_referenced heap r =
     (case r of
        Prim p \<Rightarrow> False
      | Ref s \<Rightarrow>
          (case snapshot_data heap s of
             Some (Ref d) \<Rightarrow> data_backref heap d = Some s
           | _ \<Rightarrow> False))"

text \<open>The operators that the executor never looks at: the cursor operators and every meta
  operator but \<^verbatim>\<open>$count\<close> and \<^verbatim>\<open>$aggregate\<close>.\<close>

definition ignored_operator :: "string \<Rightarrow> bool" where
  "ignored_operator key =
     (is_cursor key \<or> (is_meta key \<and> key \<noteq> ''$count'' \<and> key \<noteq> ''$aggregate''))"

text \<open>An evaluator for the examples. The theorems hold for every evaluator; this one
  implements the fragment of the selector language in which a selector lists top-level
  fields with the values they must equal (so that the empty selector accepts every
  candidate), and an aggregation that returns its input.\<close>

definition candidate_field :: "heap \<Rightarrow> jsref \<Rightarrow> string \<Rightarrow> jsval" where
  "candidate_field heap r key =
     (case r of
        Prim p \<Rightarrow> JUndefined
      | Ref a \<Rightarrow>
          (case deref heap a of
             Some (DataObj (JObj ps) b) \<Rightarrow> get_prop ps key
           | _ \<Rightarrow> JUndefined))"

definition ex_mingo :: mingo where
  "ex_mingo =
     \<lparr>query_test = (\<lambda>selector heap r.
        case selector of
          JObj conds \<Rightarrow> list_all (\<lambda>kv. candidate_field heap r (fst kv) = snd kv) conds
        | _ \<Rightarrow> True),
      aggregator_run = (\<lambda>pipeline datas. JArr datas)\<rparr>"

definition two_docs :: memorydb where
  "two_docs =
     commits MemoryDB
       [(''c'', ''d1'', ex_op (Some 0), ex_snapshot 1 (Some ''json0'')),
        (''c'', ''d2'', ex_op (Some 0), ex_snapshot 1 (Some ''json0''))]"

text \<open>The state of a candidate after the loop of find mode: a primitive other than \<^verbatim>\<open>null\<close>
  and \<^verbatim>\<open>undefined\<close>, or a document body whose \<^verbatim>\<open>__snapshot\<close> is a snapshot of one of the
  given identifiers that has the body as its data.\<close>

definition tagged :: "string set \<Rightarrow> heap \<Rightarrow> jsref \<Rightarrow> bool" where
  "tagged ids heap r =
     (case r of
        Prim p \<Rightarrow> p \<noteq> JNull \<and> p \<noteq> JUndefined
      | Ref d \<Rightarrow>
          (case data_backref heap d of
             Some s \<Rightarrow>
               snapshot_data heap s = Some (Ref d)
               \<and> (case snapshot_id heap (Ref s) of Some i \<Rightarrow> i \<in> ids | None \<Rightarrow> False)
           | None \<Rightarrow> False))"


text \<open>A store whose one document has a type and \<^verbatim>\<open>null\<close> as data.\<close>

definition null_doc :: memorydb where
  "null_doc =
     commits MemoryDB
       [(''c'', ''d'', ex_op (Some 0),
         \<lparr>snap_id = ''d'', snap_v = Some 1, snap_type = Some ''json0'', snap_data = JNull\<rparr>)]"

section \<open>Properties of the store\<close>

subsection \<open>The primitives seen through \<open>opLog_of\<close> and \<open>stored_doc\<close>\<close>

lemma getVersionSync_length:
  "getVersionSync db collection docId = length (elems (opLog_of db collection docId))"
  by (simp add: getVersionSync_def opLog_of_def empty_log_def split: option.splits)

lemma getOpLogSync_snd: "snd (getOpLogSync db collection docId) = opLog_of db collection docId"
  by (simp add: getOpLogSync_def opLog_of_def Let_def split: option.splits)

lemma getOpLogSync_opLog_of:
  "opLog_of (fst (getOpLogSync db collection docId)) c i = opLog_of db c i"
  by (simp add: getOpLogSync_def opLog_of_def Let_def split: option.splits)

lemma getOpLogSync_docs: "docs (fst (getOpLogSync db collection docId)) = docs db"
  by (simp add: getOpLogSync_def Let_def)

lemma writeOpSync_error:
  assumes "missing_parent (opLog_of db collection docId) x"
  shows "writeOpSync db collection docId x =
           (fst (getOpLogSync db collection docId), Some ConsistencyError)"
  using assms by (simp add: writeOpSync_def case_prod_beta getOpLogSync_snd)

lemma writeOpSync_ok:
  assumes "\<not> missing_parent (opLog_of db collection docId) x"
  shows "snd (writeOpSync db collection docId x) = None"
    and "docs (fst (writeOpSync db collection docId x)) = docs db"
    and "opLog_of (fst (writeOpSync db collection docId x)) c i =
           (if c = collection \<and> i = docId
            then array_put (opLog_of db collection docId) (op_v x) x
            else opLog_of db c i)"
  using assms
  by (simp_all add: writeOpSync_def case_prod_beta getOpLogSync_snd getOpLogSync_docs
        getOpLogSync_opLog_of)
     (simp add: opLog_of_def getOpLogSync_def Let_def split: option.splits)


lemma writeSnapshotSync_snd: "snd (writeSnapshotSync db collection docId s) = None"
  by (simp add: writeSnapshotSync_def Let_def)


lemma writeSnapshotSync_stored:
  "stored_doc (fst (writeSnapshotSync db collection docId s)) c i =
     (if c = collection \<and> i = docId
      then (if type_truthy (snap_type s) then Some (clone_snapshot s) else None)
      else stored_doc db c i)"
  by (simp add: writeSnapshotSync_def stored_doc_def Let_def update_conv' delete_conv'
           split: option.splits)

lemma commit_rejected:
  assumes "snap_v s \<noteq> Some (int (length (elems (opLog_of db collection docId))) + 1)"
  shows "commit db collection docId x s = (db, Inr False)"
  using assms by (simp add: commit_def getVersionSync_length)

lemma commit_error:
  assumes "snap_v s = Some (int (length (elems (opLog_of db collection docId))) + 1)"
    and "missing_parent (opLog_of db collection docId) x"
  shows "commit db collection docId x s =
           (fst (getOpLogSync db collection docId), Inl ConsistencyError)"
  using assms by (simp add: commit_def getVersionSync_length writeOpSync_error)

lemma commit_ok:
  assumes "snap_v s = Some (int (length (elems (opLog_of db collection docId))) + 1)"
    and "\<not> missing_parent (opLog_of db collection docId) x"
  shows "commit db collection docId x s =
           (fst (writeSnapshotSync (fst (writeOpSync db collection docId x)) collection docId s),
            Inr True)"
proof -
  obtain db1 e1 where w: "writeOpSync db collection docId x = (db1, e1)"
    by (cases "writeOpSync db collection docId x")
  have e1: "e1 = None" using writeOpSync_ok(1)[OF assms(2)] w by simp
  obtain db2 e2 where ws: "writeSnapshotSync db1 collection docId s = (db2, e2)"
    by (cases "writeSnapshotSync db1 collection docId s")
  have e2: "e2 = None" using writeSnapshotSync_snd[of db1 collection docId s] ws by simp
  show ?thesis using assms(1) w e1 ws e2 by (simp add: commit_def getVersionSync_length)
qed


lemma commit_ok_stored:
  assumes "snap_v s = Some (int (length (elems (opLog_of db collection docId))) + 1)"
    and "\<not> missing_parent (opLog_of db collection docId) x"
  shows "stored_doc (fst (commit db collection docId x s)) c i =
           (if c = collection \<and> i = docId
            then (if type_truthy (snap_type s) then Some (clone_snapshot s) else None)
            else stored_doc db c i)"
proof -
  have "stored_doc (fst (writeOpSync db collection docId x)) c i = stored_doc db c i"
    using assms(2) by (simp add: stored_doc_def writeOpSync_ok(2))
  then show ?thesis using assms by (simp add: commit_ok writeSnapshotSync_stored)
qed










lemmas store_defs =
  commit_def getVersionSync_def MemoryDB_def writeOpSync_def getOpLogSync_def
  writeSnapshotSync_def missing_parent_def array_put_def opLog_of_def empty_log_def
  type_truthy_def stored_doc_def getSnapshot_def getSnapshotSync_def clone_snapshot_def
  clone_def commits_def commit_call_def op_version_matches_def Let_def

subsection \<open>Version conflicts\<close>



subsection \<open>The consistency error\<close>



subsection \<open>Where an accepted operation is stored\<close>




subsection \<open>The sentinel snapshot\<close>



subsection \<open>Snapshot version and log length\<close>




subsection \<open>Reading a range of operations\<close>









subsection \<open>Normalising a flat query expression\<close>

lemma is_cursor_iff: "is_cursor k \<longleftrightarrow> k = ''$limit'' \<or> k = ''$skip''"
  by (auto simp add: is_cursor_def cursorOperators_def)

lemma cursor_target_cases:
  "map_of cursorOperators k =
     (if k = ''$limit'' then Some ''limit'' else if k = ''$skip'' then Some ''skip'' else None)"
  by (simp add: cursorOperators_def)

lemma not_meta_reserved [simp]:
  "\<not> is_meta ''$query''" "\<not> is_meta ''$findOptions''" "\<not> is_meta ''$limit''" "\<not> is_meta ''$skip''"
  by (simp_all add: is_meta_def metaOperators_def)


lemma normalize_step_cases:
  "normalize_step (k, v) q0 =
     (if is_meta k then AList.update k v q0
      else if k = ''$limit'' then
        AList.update ''$findOptions''
          (obj_put (if truthy (get_prop q0 ''$findOptions'')
                    then get_prop q0 ''$findOptions'' else JObj []) ''limit'' v) q0
      else if k = ''$skip'' then
        AList.update ''$findOptions''
          (obj_put (if truthy (get_prop q0 ''$findOptions'')
                    then get_prop q0 ''$findOptions'' else JObj []) ''skip'' v) q0
      else AList.update ''$query'' (obj_put (get_prop q0 ''$query'') k v) q0)"
  by (simp add: normalize_step_def is_meta_def cursor_target_cases Let_def)

lemma get_prop_update:
  "get_prop (AList.update k v al) k' = (if k' = k then v else get_prop al k')"
  by (simp add: get_prop_def update_conv')

lemma step_meta:
  assumes "is_meta k'"
  shows "map_of (normalize_step (k, v) q0) k' = (if k = k' then Some v else map_of q0 k')"
proof -
  have "k' \<noteq> ''$query''" "k' \<noteq> ''$findOptions''"
    using assms not_meta_reserved by auto
  then show ?thesis using assms by (simp add: normalize_step_cases update_conv')
qed

lemma step_query:
  "get_prop (normalize_step (k, v) q0) ''$query'' =
     (if is_meta k \<or> is_cursor k then get_prop q0 ''$query''
      else obj_put (get_prop q0 ''$query'') k v)"
  by (auto simp add: normalize_step_cases get_prop_update is_cursor_iff)








lemma fold_query:
  "get_prop (fold normalize_step e q0) ''$query'' =
     fold (\<lambda>kv q. obj_put q (fst kv) (snd kv)) (selector_fields e) (get_prop q0 ''$query'')"
proof (induction e arbitrary: q0)
  case Nil
  then show ?case by (simp add: selector_fields_def)
next
  case (Cons x e)
  obtain k v where x: "x = (k, v)" by (cases x)
  show ?case
    using Cons.IH[of "normalize_step (k, v) q0"]
    by (simp add: x step_query selector_fields_def)
qed








lemma cursor_fields_keys: "fst ` set (cursor_fields e) \<subseteq> {''limit'', ''skip''}"
  by (auto simp add: cursor_fields_def is_cursor_iff cursor_target_def cursor_target_cases)













subsection \<open>The objects that a query returns\<close>

lemma deref_append: "a < length h \<Longrightarrow> deref (h @ h2) a = deref h a"
  by (simp add: deref_def nth_append)

lemma deref_Some_lt: "deref h a = Some c \<Longrightarrow> a < length h"
  by (simp add: deref_def split: if_splits)

lemma data_backref_append:
  "data_backref heap d = Some s \<Longrightarrow> data_backref (heap @ h2) d = Some s"
  by (cases "d < length heap") (simp_all add: data_backref_def deref_def nth_append)

lemma snapshot_data_append:
  "snapshot_data heap s = Some r \<Longrightarrow> snapshot_data (heap @ h2) s = Some r"
  by (cases "s < length heap") (simp_all add: snapshot_data_def deref_def nth_append)

lemma snapshot_id_append:
  "snapshot_id heap r = Some i \<Longrightarrow> snapshot_id (heap @ h2) r = Some i"
proof (cases r)
  case (Prim p)
  then show "snapshot_id heap r = Some i \<Longrightarrow> ?thesis" by (simp add: snapshot_id_def)
next
  case (Ref s)
  then show "snapshot_id heap r = Some i \<Longrightarrow> ?thesis"
    by (cases "s < length heap") (simp_all add: snapshot_id_def deref_def nth_append)
qed

lemma tagged_Prim: "tagged ids heap (Prim p) \<longleftrightarrow> p \<noteq> JNull \<and> p \<noteq> JUndefined"
  by (simp add: tagged_def)

lemma tagged_Ref:
  "tagged ids heap (Ref d) \<longleftrightarrow>
     (\<exists>s i. data_backref heap d = Some s \<and> snapshot_data heap s = Some (Ref d)
        \<and> snapshot_id heap (Ref s) = Some i \<and> i \<in> ids)"
  by (auto simp add: tagged_def split: option.splits)

lemma tagged_append:
  assumes "tagged ids heap r"
  shows "tagged ids (heap @ h2) r"
proof (cases r)
  case (Prim p)
  then show ?thesis using assms by (simp add: tagged_Prim)
next
  case (Ref d)
  then obtain s i where "data_backref heap d = Some s" "snapshot_data heap s = Some (Ref d)"
    "snapshot_id heap (Ref s) = Some i" "i \<in> ids"
    using assms by (auto simp add: tagged_Ref)
  then show ?thesis
    unfolding Ref tagged_Ref
    using data_backref_append snapshot_data_append snapshot_id_append by blast
qed

lemma tag_candidate_tagged:
  assumes "tag_candidate db collection docId (heap, datas) = Inr (heap', datas')"
    and "\<forall>r \<in> set datas. tagged ids heap r"
    and "docId \<in> ids"
  shows "\<forall>r \<in> set datas'. tagged ids heap' r"
proof -
  let ?data = "snap_data (getSnapshotSync db collection docId)"
  have nn: "?data \<noteq> JNull" "?data \<noteq> JUndefined"
    using assms(1) by (auto simp add: tag_candidate_def Let_def split: if_splits)
  show ?thesis
  proof (cases "is_object ?data")
    case True
    then have h: "heap' = heap @ [DataObj (without_snapshot_prop ?data) (Some (Suc (length heap))),
          SnapshotObj docId (snap_v (getSnapshotSync db collection docId))
            (snap_type (getSnapshotSync db collection docId)) (Ref (length heap))]"
      and d: "datas' = datas @ [Ref (length heap)]"
      using assms(1) nn by (simp_all add: tag_candidate_def Let_def)
    have new: "tagged ids heap' (Ref (length heap))"
      using assms(3)
      by (simp add: tagged_Ref h data_backref_def snapshot_data_def snapshot_id_def deref_def
            nth_append)
    have old: "\<forall>r \<in> set datas. tagged ids heap' r"
      using assms(2) unfolding h by (simp add: tagged_append)
    show ?thesis using new old by (simp add: d)
  next
    case False
    then have h: "heap' = heap @ [SnapshotObj docId (snap_v (getSnapshotSync db collection docId))
            (snap_type (getSnapshotSync db collection docId)) (Prim ?data)]"
      and d: "datas' = datas @ [Prim ?data]"
      using assms(1) nn by (simp_all add: tag_candidate_def Let_def)
    have old: "\<forall>r \<in> set datas. tagged ids heap' r"
      using assms(2) unfolding h by (simp add: tagged_append)
    show ?thesis using nn old by (simp add: d tagged_Prim)
  qed
qed

lemma tag_candidates_tagged:
  assumes "tag_candidates db collection docIds st = Inr st'"
    and "\<forall>r \<in> set (snd st). tagged ids (fst st) r"
    and "set docIds \<subseteq> ids"
  shows "\<forall>r \<in> set (snd st'). tagged ids (fst st') r"
  using assms
proof (induction docIds arbitrary: st)
  case Nil
  then show ?case by simp
next
  case (Cons docId docIds)
  obtain st1 where 1: "tag_candidate db collection docId st = Inr st1"
    and 2: "tag_candidates db collection docIds st1 = Inr st'"
    using Cons.prems(1) by (auto split: sum.splits)
  have "\<forall>r \<in> set (snd st1). tagged ids (fst st1) r"
    using tag_candidate_tagged[of db collection docId "fst st" "snd st" "fst st1" "snd st1" ids]
      1 Cons.prems(2,3) by simp
  then show ?case using Cons.IH[OF 2] Cons.prems(3) by simp
qed

lemma get_snapshot_prop_backref:
  assumes "data_backref heap d = Some s"
  shows "get_snapshot_prop heap (Ref d) = Inr (Ref s)"
  using assms
  by (auto simp add: get_snapshot_prop_def data_backref_def split: option.splits cell.splits)

lemma get_snapshot_prop_tagged:
  assumes "tagged ids heap r"
  shows "\<exists>s. get_snapshot_prop heap r = Inr s
           \<and> (case r of Prim p \<Rightarrow> s = Prim JUndefined
               | Ref d \<Rightarrow> back_referenced heap s \<and> (\<exists>i \<in> ids. snapshot_id heap s = Some i))"
proof (cases r)
  case (Prim p)
  then show ?thesis using assms by (simp add: tagged_Prim get_snapshot_prop_def)
next
  case (Ref d)
  then obtain s i where d: "data_backref heap d = Some s"
    and s: "snapshot_data heap s = Some (Ref d)"
    and i: "snapshot_id heap (Ref s) = Some i" "i \<in> ids"
    using assms by (auto simp add: tagged_Ref)
  have "get_snapshot_prop heap r = Inr (Ref s)"
    using d by (simp add: Ref get_snapshot_prop_backref)
  moreover have "back_referenced heap (Ref s)" by (simp add: back_referenced_def s d)
  ultimately show ?thesis using i Ref by simp
qed

lemma resolve_tagged:
  assumes "\<forall>r \<in> set results. tagged ids heap r"
  shows "\<exists>snapshots. resolve heap results = Inr snapshots
           \<and> length snapshots = length results
           \<and> (\<forall>s \<in> set snapshots. s = Prim JUndefined
                 \<or> (back_referenced heap s \<and> (\<exists>i \<in> ids. snapshot_id heap s = Some i)))
           \<and> ((\<forall>r \<in> set results. \<exists>d. r = Ref d) \<longrightarrow>
                 (\<forall>s \<in> set snapshots. back_referenced heap s))"
  using assms
proof (induction results)
  case Nil
  then show ?case by simp
next
  case (Cons r results)
  obtain s where s: "get_snapshot_prop heap r = Inr s"
    and sp: "case r of Prim p \<Rightarrow> s = Prim JUndefined
               | Ref d \<Rightarrow> back_referenced heap s \<and> (\<exists>i \<in> ids. snapshot_id heap s = Some i)"
    using get_snapshot_prop_tagged[of ids heap r] Cons.prems by auto
  obtain snapshots where r: "resolve heap results = Inr snapshots"
    and l: "length snapshots = length results"
    and a: "\<forall>s \<in> set snapshots. s = Prim JUndefined
                 \<or> (back_referenced heap s \<and> (\<exists>i \<in> ids. snapshot_id heap s = Some i))"
    and b: "(\<forall>r \<in> set results. \<exists>d. r = Ref d) \<longrightarrow> (\<forall>s \<in> set snapshots. back_referenced heap s)"
    using Cons.IH Cons.prems by auto
  have 1: "s = Prim JUndefined \<or> (back_referenced heap s \<and> (\<exists>i \<in> ids. snapshot_id heap s = Some i))"
    using sp by (cases r) simp_all
  have 2: "(\<exists>d. r = Ref d) \<longrightarrow> back_referenced heap s"
    using sp by (cases r) simp_all
  show ?case using s r l a b 1 2 by simp
qed


lemma two_docs_docs:
  "docs two_docs ''c'' =
     Some [(''d1'', ex_snapshot 1 (Some ''json0'')), (''d2'', ex_snapshot 1 (Some ''json0''))]"
  by (simp add: two_docs_def store_defs ex_op_def ex_snapshot_def)

lemma tag_candidates_objects:
  assumes "\<forall>docId \<in> set docIds. is_object (snap_data (getSnapshotSync db collection docId))"
    and "\<forall>r \<in> set (snd st). \<exists>d. r = Ref d"
  shows "\<exists>st'. tag_candidates db collection docIds st = Inr st' \<and> (\<forall>r \<in> set (snd st'). \<exists>d. r = Ref d)"
  using assms
proof (induction docIds arbitrary: st)
  case Nil
  then show ?case by simp
next
  case (Cons docId docIds)
  let ?data = "snap_data (getSnapshotSync db collection docId)"
  have o: "is_object ?data" using Cons.prems(1) by simp
  then have nn: "?data \<noteq> JNull" "?data \<noteq> JUndefined" by (auto simp add: is_object_def)
  obtain st1 where 1: "tag_candidate db collection docId st = Inr st1"
    and 2: "snd st1 = snd st @ [Ref (length (fst st))]"
    using o nn by (simp add: tag_candidate_def Let_def)
  have "\<forall>r \<in> set (snd st1). \<exists>d. r = Ref d" using 2 Cons.prems(2) by auto
  then show ?case using Cons.IH[of st1] Cons.prems(1) 1 by simp
qed

lemma query_snapshots:
  assumes "query M db collection e flds options = Inr (heap, snapshots, extra)"
  shows "\<forall>s \<in> set snapshots. s = Prim JUndefined
           \<or> (back_referenced heap s
               \<and> (\<exists>i \<in> set (candidate_ids db collection). snapshot_id heap s = Some i))"
proof (cases "truthy (get_prop (normalizeQuery e) ''$aggregate'')")
  case True
  then show ?thesis using assms by (auto simp add: query_def Let_def)
next
  case False
  show ?thesis
  proof (cases "tag_candidates db collection (candidate_ids db collection) ([], [])")
    case (Inl x)
    then show ?thesis using assms False by (simp add: query_def Let_def)
  next
    case (Inr st)
    obtain h datas where st: "st = (h, datas)" by (cases st)
    have t: "\<forall>r \<in> set datas. tagged (set (candidate_ids db collection)) h r"
      using tag_candidates_tagged[OF Inr, of "set (candidate_ids db collection)"] st by simp
    show ?thesis
    proof (cases "truthy (get_prop (normalizeQuery e) ''$count'')")
      case True
      then show ?thesis using assms False Inr st by (simp add: query_def Let_def)
    next
      case nc: False
      let ?results = "filter (query_test M (get_prop (normalizeQuery e) ''$query'') h) datas"
      have "\<forall>r \<in> set ?results. tagged (set (candidate_ids db collection)) h r"
        using t by simp
      from resolve_tagged[OF this] obtain ss where
        r: "resolve h ?results = Inr ss"
        and p: "\<forall>s \<in> set ss. s = Prim JUndefined
                 \<or> (back_referenced h s
                    \<and> (\<exists>i \<in> set (candidate_ids db collection). snapshot_id h s = Some i))"
        by blast
      have "heap = h" "snapshots = ss"
        using assms False Inr st nc r by (simp_all add: query_def Let_def)
      then show ?thesis using p by simp
    qed
  qed
qed

lemma query_objects:
  assumes "\<forall>docId \<in> set (candidate_ids db collection).
             is_object (snap_data (getSnapshotSync db collection docId))"
  shows "\<exists>heap snapshots extra. query M db collection e flds options = Inr (heap, snapshots, extra)
           \<and> (\<forall>r \<in> set snapshots. back_referenced heap r)"
proof (cases "truthy (get_prop (normalizeQuery e) ''$aggregate'')")
  case True
  then show ?thesis by (simp add: query_def Let_def)
next
  case False
  obtain st where st: "tag_candidates db collection (candidate_ids db collection) ([], []) = Inr st"
    and refs: "\<forall>r \<in> set (snd st). \<exists>d. r = Ref d"
    using tag_candidates_objects[OF assms, of "([], [])"] by auto
  obtain h datas where hd: "st = (h, datas)" by (cases st)
  have t: "\<forall>r \<in> set datas. tagged (set (candidate_ids db collection)) h r"
    using tag_candidates_tagged[OF st, of "set (candidate_ids db collection)"] hd by simp
  show ?thesis
  proof (cases "truthy (get_prop (normalizeQuery e) ''$count'')")
    case True
    then show ?thesis using False st hd by (simp add: query_def Let_def)
  next
    case nc: False
    let ?results = "filter (query_test M (get_prop (normalizeQuery e) ''$query'') h) datas"
    have "\<forall>r \<in> set ?results. tagged (set (candidate_ids db collection)) h r"
      using t by simp
    from resolve_tagged[OF this] obtain ss where
      r: "resolve h ?results = Inr ss"
      and p: "(\<forall>r \<in> set ?results. \<exists>d. r = Ref d) \<longrightarrow> (\<forall>s \<in> set ss. back_referenced h s)"
      by blast
    have "\<forall>s \<in> set ss. back_referenced h s" using p refs hd by simp
    then show ?thesis using False st hd nc r by (simp add: query_def Let_def)
  qed
qed

text \<open>
  Claim C10. Whatever the evaluator, when \<^verbatim>\<open>query\<close> calls back, every entry of the returned
  list that is a snapshot \<open>s\<close> has a body \<^verbatim>\<open>s.data\<close> whose property \<^verbatim>\<open>__snapshot\<close> is \<open>s\<close>
  itself: the returned structure is cyclic and the body carries a property that the
  committed document does not have. (An entry is not a snapshot only when it is the
  \<^verbatim>\<open>undefined\<close> read from a body that is a primitive; in count and aggregation mode the
  list is empty.) When every document of the collection has an object or an array as its
  body, the call does not throw and every entry is such a snapshot.
\<close>

theorem query_snapshots_back_referenced:
  "(query M db collection e flds options = Inr (heap, snapshots, extra) \<longrightarrow>
      (\<forall>r \<in> set snapshots. r = Prim JUndefined \<or> back_referenced heap r))
   \<and> ((\<forall>docId \<in> set (candidate_ids db collection).
          is_object (snap_data (getSnapshotSync db collection docId))) \<longrightarrow>
      (\<exists>heap' snapshots' extra'.
          query M db collection e flds options = Inr (heap', snapshots', extra')
          \<and> (\<forall>r \<in> set snapshots'. back_referenced heap' r)))"
  using query_snapshots[of M db collection e flds options heap snapshots extra]
    query_objects[of db collection M e flds options]
  by blast

lemmas query_defs =
  query_def normalizeQuery_def get_prop_def normalize_step_def metaOperators_def
  cursorOperators_def obj_put_def candidate_ids_def tag_candidate_def
  getSnapshotSync_def stored_doc_def ex_snapshot_def clone_def is_object_def
  without_snapshot_prop_def ex_mingo_def get_snapshot_prop_def deref_def

theorem query_snapshots_back_referenced_witness:
  "query ex_mingo two_docs ''c'' [(''a'', JNum 1)] JUndefined JUndefined =
     Inr ([DataObj (JObj [(''a'', JNum 1)]) (Some 1),
           SnapshotObj ''d1'' (Some 1) (Some ''json0'') (Ref 0),
           DataObj (JObj [(''a'', JNum 1)]) (Some 3),
           SnapshotObj ''d2'' (Some 1) (Some ''json0'') (Ref 2)],
          [Ref 1, Ref 3], NoExtra)
   \<and> back_referenced
        [DataObj (JObj [(''a'', JNum 1)]) (Some 1),
         SnapshotObj ''d1'' (Some 1) (Some ''json0'') (Ref 0),
         DataObj (JObj [(''a'', JNum 1)]) (Some 3),
         SnapshotObj ''d2'' (Some 1) (Some ''json0'') (Ref 2)] (Ref 1)
   \<and> back_referenced
        [DataObj (JObj [(''a'', JNum 1)]) (Some 1),
         SnapshotObj ''d1'' (Some 1) (Some ''json0'') (Ref 0),
         DataObj (JObj [(''a'', JNum 1)]) (Some 3),
         SnapshotObj ''d2'' (Some 1) (Some ''json0'') (Ref 2)] (Ref 3)"
proof -
  have q: "query ex_mingo two_docs ''c'' [(''a'', JNum 1)] JUndefined JUndefined =
     Inr ([DataObj (JObj [(''a'', JNum 1)]) (Some 1),
           SnapshotObj ''d1'' (Some 1) (Some ''json0'') (Ref 0),
           DataObj (JObj [(''a'', JNum 1)]) (Some 3),
           SnapshotObj ''d2'' (Some 1) (Some ''json0'') (Ref 2)],
          [Ref 1, Ref 3], NoExtra)"
    by (simp add: query_defs two_docs_docs candidate_field_def)
  show ?thesis
    using q query_snapshots_back_referenced[of ex_mingo two_docs "''c''" "[(''a'', JNum 1)]"
        JUndefined JUndefined _ "[Ref 1, Ref 3]" NoExtra]
    by simp
qed


subsection \<open>Deleting a document\<close>



lemma commit_succeeded:
  assumes "snd (commit db collection docId x s) = Inr True"
  shows "snap_v s = Some (int (length (elems (opLog_of db collection docId))) + 1)"
    and "\<not> missing_parent (opLog_of db collection docId) x"
proof -
  show v: "snap_v s = Some (int (length (elems (opLog_of db collection docId))) + 1)"
    using assms by (rule contrapos_pp) (simp add: commit_rejected)
  show "\<not> missing_parent (opLog_of db collection docId) x"
    using assms v by (rule_tac notI) (simp add: commit_error)
qed






subsection \<open>What reaches the evaluator\<close>

lemma map_of_filter_keys:
  "map_of (filter (\<lambda>kv. P (fst kv)) e) k = (if P k then map_of e k else None)"
  by (induction e) auto

lemma get_prop_filter_keys:
  "P k \<Longrightarrow> get_prop (filter (\<lambda>kv. P (fst kv)) e) k = get_prop e k"
  by (simp add: get_prop_def map_of_filter_keys)

lemma roundtrip_props_filter_keys:
  "roundtrip_props (filter (\<lambda>kv. P (fst kv)) e) = filter (\<lambda>kv. P (fst kv)) (roundtrip_props e)"
  by (induction e) auto

lemma fold_meta_last:
  assumes "is_meta k'"
  shows "map_of (fold normalize_step e q0) k' =
           (case map_of (rev e) k' of Some v \<Rightarrow> Some v | None \<Rightarrow> map_of q0 k')"
proof (induction e arbitrary: q0)
  case Nil
  then show ?case by simp
next
  case (Cons x e)
  obtain k v where x: "x = (k, v)" by (cases x)
  show ?case
    using Cons.IH[of "normalize_step (k, v) q0"]
    by (simp add: x step_meta[OF assms] map_add_def split: option.splits)
qed

lemma not_ignored_reserved:
  "\<not> ignored_operator ''$query''" "\<not> ignored_operator ''$count''"
  "\<not> ignored_operator ''$aggregate''"
  by (simp_all add: ignored_operator_def is_cursor_iff)

lemma is_meta_count_aggregate: "is_meta ''$count''" "is_meta ''$aggregate''"
  by (simp_all add: is_meta_def metaOperators_def)

lemma selector_fields_not_ignored:
  "selector_fields (filter (\<lambda>kv. \<not> ignored_operator (fst kv)) e) = selector_fields e"
  unfolding selector_fields_def filter_filter
  by (rule filter_cong) (auto simp add: ignored_operator_def)

lemma normalizeQuery_not_ignored:
  assumes "k = ''$query'' \<or> k = ''$count'' \<or> k = ''$aggregate''"
  shows "get_prop (normalizeQuery (filter (\<lambda>kv. \<not> ignored_operator (fst kv)) e)) k =
           get_prop (normalizeQuery e) k"
proof -
  let ?e = "filter (\<lambda>kv. \<not> ignored_operator (fst kv)) e"
  have keep: "\<not> ignored_operator k" using assms not_ignored_reserved by auto
  have b: "get_prop ?e ''$query'' = get_prop e ''$query''"
    using not_ignored_reserved
    by (simp add: get_prop_def map_of_filter_keys[where P = "\<lambda>k. \<not> ignored_operator k"])
  show ?thesis
  proof (cases "truthy (get_prop e ''$query'')")
    case True
    have r: "get_prop (roundtrip_props ?e) k' = get_prop (roundtrip_props e) k'"
      if "\<not> ignored_operator k'" for k'
      using that
      by (simp add: roundtrip_props_filter_keys[where P = "\<lambda>k. \<not> ignored_operator k"]
            get_prop_def map_of_filter_keys[where P = "\<lambda>k. \<not> ignored_operator k"])
    show ?thesis
      using True b r[OF keep] r[of "''$query''"] not_ignored_reserved(1)
      by (simp add: normalizeQuery_def Let_def get_prop_update)
  next
    case False
    show ?thesis
    proof (cases "k = ''$query''")
      case True
      then show ?thesis
        using False b by (simp add: normalizeQuery_def fold_query selector_fields_not_ignored)
    next
      case nq: False
      then have m: "is_meta k" using assms is_meta_count_aggregate by auto
      have "map_of (rev ?e) k = map_of (rev e) k"
        using keep
        by (simp add: rev_filter map_of_filter_keys[where P = "\<lambda>k. \<not> ignored_operator k"])
      then show ?thesis
        using False b by (simp add: normalizeQuery_def get_prop_def fold_meta_last[OF m])
    qed
  qed
qed

text \<open>
  Claim C9, as amended. The executor passes the evaluator the selector \<^verbatim>\<open>$query\<close> and the
  candidates, and nothing else: the cursor operators and the meta operators other than
  \<^verbatim>\<open>$count\<close> and \<^verbatim>\<open>$aggregate\<close> are dropped. Removing them from a query expression never
  changes what \<^verbatim>\<open>query\<close> returns, whatever the evaluator.
\<close>

theorem query_ignores_cursor_and_meta_operators:
  "query M db collection (filter (\<lambda>kv. \<not> ignored_operator (fst kv)) e) flds options =
     query M db collection e flds options"
proof -
  let ?e = "filter (\<lambda>kv. \<not> ignored_operator (fst kv)) e"
  have 1: "get_prop (normalizeQuery ?e) ''$query'' = get_prop (normalizeQuery e) ''$query''"
    by (simp add: normalizeQuery_not_ignored)
  have 2: "get_prop (normalizeQuery ?e) ''$count'' = get_prop (normalizeQuery e) ''$count''"
    by (simp add: normalizeQuery_not_ignored)
  have 3: "get_prop (normalizeQuery ?e) ''$aggregate'' = get_prop (normalizeQuery e) ''$aggregate''"
    by (simp add: normalizeQuery_not_ignored)
  show ?thesis unfolding query_def Let_def 1 2 3 by (rule refl)
qed

theorem query_ignores_cursor_and_meta_operators_witness:
  "query ex_mingo two_docs ''c'' [(''a'', JNum 1)] JUndefined JUndefined =
     query ex_mingo two_docs ''c''
       [(''a'', JNum 1), (''$skip'', JNum 1), (''$orderby'', JObj [(''a'', JNum 1)])]
       JUndefined JUndefined"
proof -
  have "filter (\<lambda>kv. \<not> ignored_operator (fst kv))
          [(''a'', JNum 1), (''$skip'', JNum 1), (''$orderby'', JObj [(''a'', JNum 1)])] =
        [(''a'', JNum 1)]"
    by (simp add: ignored_operator_def is_cursor_iff is_meta_def metaOperators_def)
  then show ?thesis
    using query_ignores_cursor_and_meta_operators[of ex_mingo two_docs "''c''"
        "[(''a'', JNum 1), (''$skip'', JNum 1), (''$orderby'', JObj [(''a'', JNum 1)])]"
        JUndefined JUndefined]
    by simp
qed

text \<open>
  Claim C9 as stated fails: with two documents in the collection, a query that carries
  \<^verbatim>\<open>$limit: 1\<close> and an empty selector returns the snapshots of both, exactly as the query
  without the limit does.
\<close>

theorem query_limit_dropped_counterexample:
  "query ex_mingo two_docs ''c'' [(''$limit'', JNum 1)] JUndefined JUndefined =
     Inr ([DataObj (JObj [(''a'', JNum 1)]) (Some 1),
           SnapshotObj ''d1'' (Some 1) (Some ''json0'') (Ref 0),
           DataObj (JObj [(''a'', JNum 1)]) (Some 3),
           SnapshotObj ''d2'' (Some 1) (Some ''json0'') (Ref 2)],
          [Ref 1, Ref 3], NoExtra)
   \<and> query ex_mingo two_docs ''c'' [(''$limit'', JNum 1)] JUndefined JUndefined =
       query ex_mingo two_docs ''c'' [] JUndefined JUndefined"
  by (simp add: query_defs two_docs_docs)

subsection \<open>Further properties\<close>

lemma json_roundtrip_defined:
  "x \<noteq> JUndefined \<Longrightarrow> json_roundtrip x \<noteq> JUndefined"
  by (cases x) simp_all

lemma json_roundtrip_idem:
  "json_roundtrip (json_roundtrip x) = json_roundtrip x"
  "roundtrip_elems (roundtrip_elems xs) = roundtrip_elems xs"
  "roundtrip_props (roundtrip_props ps) = roundtrip_props ps"
  by (induction x and xs and ps rule: json_roundtrip_roundtrip_elems_roundtrip_props.induct)
     (simp_all add: json_roundtrip_defined)

lemma clone_idem: "clone (clone x) = clone x"
  by (simp add: clone_def json_roundtrip_idem json_roundtrip_defined)

text \<open>
  Round trip. After a successful commit of a snapshot that has a type, \<^verbatim>\<open>getSnapshot\<close>
  returns the identifier asked for, the version and the type of the committed snapshot, and
  a copy of its data as \<^verbatim>\<open>clone\<close> makes it.
\<close>

theorem commit_then_getSnapshot:
  assumes "snd (commit db collection docId x s) = Inr True"
    and "type_truthy (snap_type s)"
  shows "getSnapshot (fst (commit db collection docId x s)) collection docId flds =
           (None, \<lparr>snap_id = docId, snap_v = snap_v s, snap_type = snap_type s,
                   snap_data = clone (snap_data s)\<rparr>)"
proof -
  note ok = commit_succeeded[OF assms(1)]
  have "stored_doc (fst (commit db collection docId x s)) collection docId = Some (clone_snapshot s)"
    using assms(2) by (simp add: commit_ok_stored[OF ok])
  then show ?thesis
    by (simp add: getSnapshot_def getSnapshotSync_def clone_snapshot_def clone_idem)
qed

theorem commit_then_getSnapshot_witness:
  "snd (commit MemoryDB ''c'' ''d'' (ex_op (Some 0)) (ex_snapshot 1 (Some ''json0''))) = Inr True
   \<and> type_truthy (snap_type (ex_snapshot 1 (Some ''json0'')))
   \<and> getSnapshot (fst (commit MemoryDB ''c'' ''d'' (ex_op (Some 0)) (ex_snapshot 1 (Some ''json0''))))
        ''c'' ''d'' JUndefined =
        (None, \<lparr>snap_id = ''d'', snap_v = Some 1, snap_type = Some ''json0'',
                snap_data = JObj [(''a'', JNum 1)]\<rparr>)"
proof -
  have a: "snd (commit MemoryDB ''c'' ''d'' (ex_op (Some 0)) (ex_snapshot 1 (Some ''json0''))) = Inr True"
    by (simp add: store_defs ex_op_def ex_snapshot_def)
  have b: "type_truthy (snap_type (ex_snapshot 1 (Some ''json0'')))"
    by (simp add: ex_snapshot_def type_truthy_def)
  show ?thesis using a b commit_then_getSnapshot[OF a b, of JUndefined]
    by (simp add: ex_snapshot_def clone_def)
qed

lemma tag_candidates_throws:
  assumes "docId \<in> set docIds"
    and "snap_data (getSnapshotSync db collection docId) = JNull
         \<or> snap_data (getSnapshotSync db collection docId) = JUndefined"
  shows "tag_candidates db collection docIds st = Inl TypeError"
  using assms(1)
proof (induction docIds arbitrary: st)
  case Nil
  then show ?case by simp
next
  case (Cons i docIds)
  show ?case
  proof (cases "tag_candidate db collection i st")
    case (Inl e)
    then show ?thesis by (cases e) simp
  next
    case (Inr st1)
    then have "i \<noteq> docId" using assms(2) by (auto simp add: tag_candidate_def Let_def)
    then have "docId \<in> set docIds" using Cons.prems by simp
    then show ?thesis using Cons.IH[of st1] Inr by simp
  qed
qed

text \<open>
  A body that is \<^verbatim>\<open>null\<close>. When a document of the collection is stored with data that is
  \<^verbatim>\<open>null\<close> (or missing), every query of the collection that is not an aggregation throws
  on \<^verbatim>\<open>data.__snapshot = snapshot\<close>, and the callback is never called.
\<close>

theorem query_throws_on_null_data:
  assumes "docId \<in> set (candidate_ids db collection)"
    and "snap_data (getSnapshotSync db collection docId) = JNull
         \<or> snap_data (getSnapshotSync db collection docId) = JUndefined"
    and "\<not> truthy (get_prop (normalizeQuery e) ''$aggregate'')"
  shows "query M db collection e flds options = Inl TypeError"
  using assms(3) tag_candidates_throws[OF assms(1,2)]
  by (simp add: query_def Let_def)

theorem query_throws_on_null_data_witness:
  "''d'' \<in> set (candidate_ids null_doc ''c'')
   \<and> snap_data (getSnapshotSync null_doc ''c'' ''d'') = JNull
   \<and> \<not> truthy (get_prop (normalizeQuery []) ''$aggregate'')
   \<and> query ex_mingo null_doc ''c'' [] JUndefined JUndefined = Inl TypeError"
proof -
  have d: "docs null_doc ''c'' =
      Some [(''d'', \<lparr>snap_id = ''d'', snap_v = Some 1, snap_type = Some ''json0'', snap_data = JNull\<rparr>)]"
    by (simp add: null_doc_def store_defs ex_op_def)
  have a: "''d'' \<in> set (candidate_ids null_doc ''c'')"
    by (simp add: candidate_ids_def d)
  have b: "snap_data (getSnapshotSync null_doc ''c'' ''d'') = JNull
         \<or> snap_data (getSnapshotSync null_doc ''c'' ''d'') = JUndefined"
    by (simp add: getSnapshotSync_def stored_doc_def d clone_def)
  have c: "\<not> truthy (get_prop (normalizeQuery []) ''$aggregate'')"
    by (simp add: normalizeQuery_def get_prop_def)
  have b': "snap_data (getSnapshotSync null_doc ''c'' ''d'') = JNull"
    by (simp add: getSnapshotSync_def stored_doc_def d clone_def)
  show ?thesis
    using a b' c query_throws_on_null_data[OF a b c, of ex_mingo JUndefined JUndefined]
    by simp
qed

end
